theory Spec2Isabelle
  imports Complex_Main "HOL-Library.AList"
begin

section \<open>The ANL 2024 runner: scenario generation and tournament set-up\<close>

text \<open>
  A shallow embedding of \<^verbatim>\<open>src/anl/anl2024/runner.py\<close>: \<^verbatim>\<open>onein\<close>,
  \<^verbatim>\<open>make_scenarios\<close> and the destination path computed by
  \<^verbatim>\<open>anl2024_tournament\<close>.

  Conventions of the embedding.
  \<^item> Python's unbounded \<^verbatim>\<open>int\<close> is \<^typ>\<open>int\<close>; Python's \<^verbatim>\<open>float\<close> is
    \<^typ>\<open>real\<close>, so every arithmetic operation is exact and rounding is outside
    the model.
  \<^item> Every exception the source can raise is a value of \<open>error\<close>; a function that can
    raise returns \<open>error + 'a\<close>.
  \<^item> The process-wide generator of the \<^verbatim>\<open>random\<close> module is threaded through
    explicitly: a call takes the generator state and returns the new one. The module
    itself is the standard library's, so its two functions used by the source are
    parameters of the model (a \<open>generator\<close>).
  \<^item> The objects of the negmas library (issue, outcome space, utility function,
    scenario) are records holding the constructor arguments the source passes.
\<close>

subsection \<open>Errors\<close>

text \<open>
  \<open>ValueError\<close>, \<open>IndexError\<close> and \<open>ZeroDivisionError\<close> are the exceptions the
  operations of the source raise. \<open>ConfigurationError\<close> is the error kind the
  specification names; no statement of the source raises it.
\<close>

datatype error = ValueError | IndexError | ZeroDivisionError | ConfigurationError

subsection \<open>Strings: \<^verbatim>\<open>str\<close>, \<^verbatim>\<open>int\<close>, \<^verbatim>\<open>split\<close>\<close>

definition digit_char :: "nat \<Rightarrow> char" where
  "digit_char d = ''0123456789'' ! d"

definition digit_of :: "char \<Rightarrow> nat option" where
  "digit_of c = map_of (zip ''0123456789'' [0, 1, 2, 3, 4, 5, 6, 7, 8, 9]) c"

text \<open>\<^verbatim>\<open>str(i)\<close> for an integer: decimal digits, a minus sign when negative.\<close>

fun str_nat :: "nat \<Rightarrow> string" where
  "str_nat n = (if n < 10 then [digit_char n] else str_nat (n div 10) @ [digit_char (n mod 10)])"

declare str_nat.simps [simp del]

definition py_str :: "int \<Rightarrow> string" where
  "py_str i = (if i < 0 then CHR ''-'' # str_nat (nat (- i)) else str_nat (nat i))"

text \<open>
  \<^verbatim>\<open>int(s)\<close> for a string: an optional sign followed by at least one decimal digit;
  anything else is a \<open>ValueError\<close>. (The surrounding white space and the digit
  separators that Python also accepts are rejected here; a piece of a label split
  at \<^verbatim>\<open>"_"\<close> has neither.)
\<close>

fun digits_value :: "string \<Rightarrow> nat \<Rightarrow> nat option" where
  "digits_value [] acc = Some acc"
| "digits_value (c # cs) acc =
     (case digit_of c of None \<Rightarrow> None | Some d \<Rightarrow> digits_value cs (10 * acc + d))"

definition parse_digits :: "string \<Rightarrow> nat option" where
  "parse_digits s = (if s = [] then None else digits_value s 0)"

definition py_int :: "string \<Rightarrow> error + int" where
  "py_int s =
     (if s \<noteq> [] \<and> hd s = CHR ''-'' then
        (case parse_digits (tl s) of None \<Rightarrow> Inl ValueError | Some v \<Rightarrow> Inr (- int v))
      else if s \<noteq> [] \<and> hd s = CHR ''+'' then
        (case parse_digits (tl s) of None \<Rightarrow> Inl ValueError | Some v \<Rightarrow> Inr (int v))
      else
        (case parse_digits s of None \<Rightarrow> Inl ValueError | Some v \<Rightarrow> Inr (int v)))"

text \<open>\<^verbatim>\<open>s.split(c)\<close> for a one-character separator: never the empty list.\<close>

fun split_on :: "char \<Rightarrow> string \<Rightarrow> string list" where
  "split_on c [] = [[]]"
| "split_on c (x # xs) =
     (if x = c then [] # split_on c xs
      else (x # hd (split_on c xs)) # tl (split_on c xs))"

text \<open>\<^verbatim>\<open>xs[k]\<close> for \<open>k \<ge> 0\<close>: an \<open>IndexError\<close> out of range.\<close>

definition py_index :: "'a list \<Rightarrow> nat \<Rightarrow> error + 'a" where
  "py_index xs k = (if k < length xs then Inr (xs ! k) else Inl IndexError)"

text \<open>\<^verbatim>\<open>a / b\<close> on two integers: true division, a \<open>ZeroDivisionError\<close> when \<open>b = 0\<close>.\<close>

definition py_truediv :: "int \<Rightarrow> int \<Rightarrow> error + real" where
  "py_truediv a b = (if b = 0 then Inl ZeroDivisionError else Inr (real_of_int a / real_of_int b))"

text \<open>\<^verbatim>\<open>range(n)\<close>: empty when \<open>n \<le> 0\<close>.\<close>

definition py_range :: "int \<Rightarrow> int list" where
  "py_range n = [0 .. n - 1]"

subsection \<open>The random generator\<close>

text \<open>
  \<open>gen_random\<close> is \<^verbatim>\<open>random.random()\<close> and \<open>gen_randint a b\<close> is what
  \<^verbatim>\<open>random.randint(a, b)\<close> returns on a non-empty range; each returns the drawn
  value and the generator's next state.
\<close>

record 'g generator =
  gen_random :: "'g \<Rightarrow> real \<times> 'g"
  gen_randint :: "int \<Rightarrow> int \<Rightarrow> 'g \<Rightarrow> int \<times> 'g"

text \<open>\<^verbatim>\<open>random.randint(a, b)\<close> raises \<open>ValueError\<close> on the empty range \<open>a > b\<close>.\<close>

definition randint :: "'g generator \<Rightarrow> int \<Rightarrow> int \<Rightarrow> 'g \<Rightarrow> error + (int \<times> 'g)" where
  "randint G a b g = (if b < a then Inl ValueError else Inr (gen_randint G a b g))"




text \<open>
  A small generator for concrete runs: the state is a counter, \<^verbatim>\<open>random()\<close> returns
  the tenths \<open>0, 0.1, \<dots>, 0.9\<close> in turn and \<^verbatim>\<open>randint(a, b)\<close> walks through the
  range.
\<close>

definition counter_generator :: "nat generator" where
  "counter_generator =
     \<lparr> gen_random = (\<lambda>s. (real (s mod 10) / 10, Suc s)),
       gen_randint = (\<lambda>a b s. (a + int s mod (b - a + 1), Suc s)) \<rparr>"

subsection \<open>negmas objects\<close>

record issue =
  issue_values :: "string list"
  issue_name :: string

definition make_issue :: "string list \<Rightarrow> string \<Rightarrow> issue" where
  "make_issue vs nm = \<lparr> issue_values = vs, issue_name = nm \<rparr>"

record outcome_space =
  os_issues :: "issue list"
  os_name :: string

definition make_os :: "issue list \<Rightarrow> string \<Rightarrow> outcome_space" where
  "make_os iss nm = \<lparr> os_issues = iss, os_name = nm \<rparr>"

text \<open>
  A \<^verbatim>\<open>TableFun\<close> wraps a dictionary; the dictionary is an association list in
  insertion order, and storing under a key already present replaces its value in place
  (\<^const>\<open>AList.update\<close>), as a Python \<^verbatim>\<open>dict\<close> does.
\<close>

type_synonym table_fun = "(string \<times> real) list"

record ufun =
  uf_values :: "table_fun list"
  uf_name :: string
  uf_reserved_value :: real
  uf_outcome_space :: outcome_space

record scenario =
  sc_outcome_space :: outcome_space
  sc_ufuns :: "ufun list"

text \<open>
  The outcomes of an outcome space are the tuples of one value per issue, in
  enumeration order; with the single issue built by \<^verbatim>\<open>make_scenarios\<close> an outcome is
  a one-element tuple.
\<close>

definition outcomes :: "outcome_space \<Rightarrow> string list list" where
  "outcomes os = product_lists (map issue_values (os_issues os))"

text \<open>
  The value a utility function built by \<^verbatim>\<open>make_scenarios\<close> gives an outcome: it has
  one table for the one issue, and the value is the table's entry for the outcome's
  only component (\<open>None\<close> when there is no such entry or the shapes differ).
\<close>

definition ufun_value :: "ufun \<Rightarrow> string list \<Rightarrow> real option" where
  "ufun_value u outcome =
     (case (uf_values u, outcome) of
        ([t], [x]) \<Rightarrow> map_of t x
      | _ \<Rightarrow> None)"

subsection \<open>\<^verbatim>\<open>onein\<close>\<close>

text \<open>The argument \<^verbatim>\<open>int | tuple[int, int]\<close>.\<close>

datatype n_outcomes_arg = Count int | Range int int

definition onein :: "'g generator \<Rightarrow> n_outcomes_arg \<Rightarrow> 'g \<Rightarrow> error + (int \<times> 'g)" where
  "onein G x g =
     (case x of
        Range a b \<Rightarrow> (if a = b then Inr (a, g) else randint G a b g)
      | Count c \<Rightarrow> Inr (c, g))"

subsection \<open>\<^verbatim>\<open>make_scenarios\<close>\<close>

definition eps :: real where
  "eps = 1 / 10 ^ 8"

text \<open>The label \<^verbatim>\<open>f"{i}_{n-1 - i}"\<close> of outcome \<open>i\<close>.\<close>

definition label :: "int \<Rightarrow> int \<Rightarrow> string" where
  "label n i = py_str i @ ''_'' @ py_str (n - 1 - i)"

text \<open>One table entry: \<^verbatim>\<open>int(str(_).split("_")[k]) / (n - 1)\<close>.\<close>

definition table_entry :: "nat \<Rightarrow> int \<Rightarrow> string \<Rightarrow> error + real" where
  "table_entry k n l =
     (case py_index (split_on CHR ''_'' l) k of
        Inl e \<Rightarrow> Inl e
      | Inr piece \<Rightarrow>
          (case py_int piece of
             Inl e \<Rightarrow> Inl e
           | Inr share \<Rightarrow> py_truediv share (n - 1)))"

text \<open>
  The dictionary comprehension over \<^verbatim>\<open>issues[0].all\<close>: entries are stored in order,
  and the first entry that raises ends the comprehension.
\<close>

fun dict_comp :: "(string \<Rightarrow> error + real) \<Rightarrow> string list \<Rightarrow> table_fun \<Rightarrow> error + table_fun" where
  "dict_comp f [] d = Inr d"
| "dict_comp f (l # ls) d =
     (case f l of Inl e \<Rightarrow> Inl e | Inr v \<Rightarrow> dict_comp f ls (AList.update l v d))"

text \<open>
  One call of \<^verbatim>\<open>U(...)\<close>, its arguments evaluated in the order written: the table,
  the name, the reserved value (one draw of \<^verbatim>\<open>random.random()\<close>), the outcome space.
\<close>

definition make_ufun ::
  "'g generator \<Rightarrow> int \<Rightarrow> issue list \<Rightarrow> int \<Rightarrow> nat \<Rightarrow> string \<Rightarrow> real \<times> real \<Rightarrow> 'g \<Rightarrow> error + (ufun \<times> 'g)"
where
  "make_ufun G n issues i k uname r g =
     (case py_index issues 0 of
        Inl e \<Rightarrow> Inl e
      | Inr iss \<Rightarrow>
          (case dict_comp (table_entry k n) (issue_values iss) [] of
             Inl e \<Rightarrow> Inl e
           | Inr t \<Rightarrow>
               (case gen_random G g of
                  (u, g') \<Rightarrow>
                    Inr (\<lparr> uf_values = [t],
                           uf_name = uname @ py_str i,
                           uf_reserved_value = fst r + eps + u * (snd r - fst r - eps),
                           uf_outcome_space = make_os issues (''DivideTyePie'' @ py_str i) \<rparr>,
                         g'))))"

text \<open>
  The inner generator expression: one utility function per element of
  \<^verbatim>\<open>enumerate(zip(("First", "Second"), reserved_ranges))\<close>.
\<close>

fun make_ufuns ::
  "'g generator \<Rightarrow> int \<Rightarrow> issue list \<Rightarrow> int \<Rightarrow> (nat \<times> string \<times> (real \<times> real)) list \<Rightarrow> 'g
     \<Rightarrow> error + (ufun list \<times> 'g)"
where
  "make_ufuns G n issues i [] g = Inr ([], g)"
| "make_ufuns G n issues i ((k, uname, r) # roles) g =
     (case make_ufun G n issues i k uname r g of
        Inl e \<Rightarrow> Inl e
      | Inr (u, g') \<Rightarrow>
          (case make_ufuns G n issues i roles g' of
             Inl e \<Rightarrow> Inl e
           | Inr (us, g'') \<Rightarrow> Inr (u # us, g'')))"

text \<open>The outer list comprehension \<^verbatim>\<open>for i in range(n_scenarios)\<close>.\<close>

fun make_ufun_sets ::
  "'g generator \<Rightarrow> int \<Rightarrow> issue list \<Rightarrow> (nat \<times> string \<times> (real \<times> real)) list \<Rightarrow> int list \<Rightarrow> 'g
     \<Rightarrow> error + (ufun list list \<times> 'g)"
where
  "make_ufun_sets G n issues roles [] g = Inr ([], g)"
| "make_ufun_sets G n issues roles (i # is) g =
     (case make_ufuns G n issues i roles g of
        Inl e \<Rightarrow> Inl e
      | Inr (us, g') \<Rightarrow>
          (case make_ufun_sets G n issues roles is g' of
             Inl e \<Rightarrow> Inl e
           | Inr (uss, g'') \<Rightarrow> Inr (us # uss, g'')))"

text \<open>
  The final list comprehension: \<^verbatim>\<open>ufuns[0]\<close> raises \<open>IndexError\<close> on an empty
  tuple.
\<close>

fun make_scenario_list :: "ufun list list \<Rightarrow> error + scenario list" where
  "make_scenario_list [] = Inr []"
| "make_scenario_list (ufuns # rest) =
     (case py_index ufuns 0 of
        Inl e \<Rightarrow> Inl e
      | Inr u0 \<Rightarrow>
          (case make_scenario_list rest of
             Inl e \<Rightarrow> Inl e
           | Inr scs \<Rightarrow>
               Inr (\<lparr> sc_outcome_space = uf_outcome_space u0, sc_ufuns = ufuns \<rparr> # scs)))"

definition role_list :: "(real \<times> real) list \<Rightarrow> (nat \<times> string \<times> (real \<times> real)) list" where
  "role_list reserved_ranges = enumerate 0 (zip [''First'', ''Second''] reserved_ranges)"

definition make_scenarios ::
  "'g generator \<Rightarrow> int \<Rightarrow> n_outcomes_arg \<Rightarrow> (real \<times> real) list \<Rightarrow> 'g \<Rightarrow> error + (scenario list \<times> 'g)"
where
  "make_scenarios G n_scenarios n_outcomes reserved_ranges g =
     (case onein G n_outcomes g of
        Inl e \<Rightarrow> Inl e
      | Inr (n, g1) \<Rightarrow>
          (let issues = [make_issue (map (label n) (py_range n)) ''portions''] in
           case make_ufun_sets G n issues (role_list reserved_ranges) (py_range n_scenarios) g1 of
             Inl e \<Rightarrow> Inl e
           | Inr (ufun_sets, g2) \<Rightarrow>
               (case make_scenario_list ufun_sets of
                  Inl e \<Rightarrow> Inl e
                | Inr scs \<Rightarrow> Inr (scs, g2))))"

text \<open>The default \<^verbatim>\<open>reserved_ranges\<close>.\<close>

definition default_reserved_ranges :: "(real \<times> real) list" where
  "default_reserved_ranges = [(0, 499999 / 1000000), (0, 499999 / 1000000)]"

subsection \<open>\<^verbatim>\<open>anl2024_tournament\<close>: the destination path\<close>

text \<open>
  The \<^verbatim>\<open>path\<close> argument that \<^verbatim>\<open>anl2024_tournament\<close> passes to
  \<^verbatim>\<open>cartesian_tournament\<close>. Paths are values of any type \<open>'p\<close>; \<open>join\<close> is the
  \<^verbatim>\<open>/\<close> operator of \<^verbatim>\<open>pathlib\<close>, \<open>home\<close> is \<^verbatim>\<open>Path.home()\<close> and \<open>fresh\<close> is what
  \<^verbatim>\<open>unique_name("anl")\<close> returns when it is called. A string is false in a
  condition exactly when it is empty.
\<close>

definition DEFAULT_TOURNAMENT_PATH :: "('p \<Rightarrow> string \<Rightarrow> 'p) \<Rightarrow> 'p \<Rightarrow> 'p" where
  "DEFAULT_TOURNAMENT_PATH join home = join (join (join home ''negmas'') ''anl2024'') ''tournaments''"

definition name_or_unique :: "string option \<Rightarrow> string \<Rightarrow> string" where
  "name_or_unique name fresh =
     (case name of None \<Rightarrow> fresh | Some s \<Rightarrow> (if s \<noteq> [] then s else fresh))"

definition tournament_path ::
  "('p \<Rightarrow> string \<Rightarrow> 'p) \<Rightarrow> 'p \<Rightarrow> string \<Rightarrow> bool \<Rightarrow> 'p option \<Rightarrow> string option \<Rightarrow> 'p option"
where
  "tournament_path join home fresh nologs base_path name =
     (if nologs then None
      else (case base_path of
              Some bp \<Rightarrow> Some (join bp (name_or_unique name fresh))
            | None \<Rightarrow> Some (join (DEFAULT_TOURNAMENT_PATH join home) (name_or_unique name fresh))))"

subsection \<open>Notation for the properties\<close>

text \<open>
  The one-element tuple of issues that \<^verbatim>\<open>make_scenarios\<close> builds for outcome count
  \<open>n\<close>, and the share of the pie that role \<open>k\<close> (0 the first, 1 the second) gets in
  outcome \<open>i\<close>.
\<close>

abbreviation pie_issues :: "int \<Rightarrow> issue list" where
  "pie_issues n \<equiv> [make_issue (map (label n) (py_range n)) ''portions'']"

abbreviation share :: "nat \<Rightarrow> int \<Rightarrow> int \<Rightarrow> int" where
  "share k n i \<equiv> (if k = 0 then i else n - 1 - i)"

text \<open>
  The scenario that \<^verbatim>\<open>make_scenarios(1, 3)\<close> returns with the default reserved
  ranges when the two reserved values come out as \<open>r0\<close> and \<open>r1\<close>; \<open>pie3\<close> is the one
  for \<open>counter_generator\<close> in state 0 (the two draws are 0 and 0.1).
\<close>

definition pie3_space :: outcome_space where
  "pie3_space =
     \<lparr> os_issues = [\<lparr> issue_values = [''0_2'', ''1_1'', ''2_0''], issue_name = ''portions'' \<rparr>],
       os_name = ''DivideTyePie0'' \<rparr>"

definition pie3_with :: "real \<Rightarrow> real \<Rightarrow> scenario" where
  "pie3_with r0 r1 =
     \<lparr> sc_outcome_space = pie3_space,
       sc_ufuns =
         [\<lparr> uf_values = [[(''0_2'', 0), (''1_1'', 1 / 2), (''2_0'', 1)]],
            uf_name = ''First0'',
            uf_reserved_value = r0,
            uf_outcome_space = pie3_space \<rparr>,
          \<lparr> uf_values = [[(''0_2'', 1), (''1_1'', 1 / 2), (''2_0'', 0)]],
            uf_name = ''Second0'',
            uf_reserved_value = r1,
            uf_outcome_space = pie3_space \<rparr>] \<rparr>"

definition pie3 :: scenario where
  "pie3 = pie3_with (1 / 100000000) (49999909 / 1000000000)"

section \<open>Properties\<close>

subsection \<open>Labels: writing and reading back the shares\<close>

lemma digit_cases: "d < 10 \<Longrightarrow> d \<in> {0, 1, 2, 3, 4, 5, 6, 7, 8, 9::nat}"
  by auto

lemma digit_of_digit_char: "d < 10 \<Longrightarrow> digit_of (digit_char d) = Some d"
  using digit_cases [of d]
  by (auto simp: digit_of_def digit_char_def)

lemma digit_char_plain:
  "d < 10 \<Longrightarrow> digit_char d \<noteq> CHR ''_'' \<and> digit_char d \<noteq> CHR ''-'' \<and> digit_char d \<noteq> CHR ''+''"
  using digit_cases [of d]
  by (auto simp: digit_char_def)

lemma str_nat_small: "n < 10 \<Longrightarrow> str_nat n = [digit_char n]"
  by (subst str_nat.simps) simp

lemma str_nat_big: "\<not> n < 10 \<Longrightarrow> str_nat n = str_nat (n div 10) @ [digit_char (n mod 10)]"
  by (subst str_nat.simps) simp

lemma str_nat_nonempty: "str_nat n \<noteq> []"
  by (cases "n < 10") (simp_all add: str_nat_small str_nat_big)

lemma str_nat_chars: "c \<in> set (str_nat n) \<Longrightarrow> \<exists>d<10. c = digit_char d"
proof (induction n rule: str_nat.induct)
  case (1 n)
  show ?case
  proof (cases "n < 10")
    case True
    with "1.prems" have "c = digit_char n"
      by (simp add: str_nat_small)
    with True show ?thesis by blast
  next
    case False
    with "1.prems" have "c \<in> set (str_nat (n div 10)) \<or> c = digit_char (n mod 10)"
      by (auto simp: str_nat_big)
    then show ?thesis
    proof
      assume "c \<in> set (str_nat (n div 10))"
      with "1.IH" False show ?thesis by simp
    next
      assume "c = digit_char (n mod 10)"
      moreover have "n mod 10 < 10" by simp
      ultimately show ?thesis by blast
    qed
  qed
qed

lemma str_nat_plain:
  "CHR ''_'' \<notin> set (str_nat n) \<and> CHR ''-'' \<notin> set (str_nat n) \<and> CHR ''+'' \<notin> set (str_nat n)"
proof -
  have "c \<in> set (str_nat n) \<Longrightarrow> c \<noteq> CHR ''_'' \<and> c \<noteq> CHR ''-'' \<and> c \<noteq> CHR ''+''" for c
  proof -
    assume "c \<in> set (str_nat n)"
    then obtain d where "d < 10" "c = digit_char d"
      using str_nat_chars by blast
    then show ?thesis
      using digit_char_plain [of d] by simp
  qed
  then show ?thesis by blast
qed

lemma digits_value_append:
  "digits_value (xs @ ys) acc =
     (case digits_value xs acc of None \<Rightarrow> None | Some a \<Rightarrow> digits_value ys a)"
  by (induction xs arbitrary: acc) (simp_all split: option.splits)

lemma digits_value_str_nat: "digits_value (str_nat n) 0 = Some n"
proof (induction n rule: str_nat.induct)
  case (1 n)
  show ?case
  proof (cases "n < 10")
    case True
    then show ?thesis
      by (simp add: str_nat_small digit_of_digit_char)
  next
    case False
    have "digits_value (str_nat (n div 10)) 0 = Some (n div 10)"
      using "1.IH" False by simp
    then show ?thesis
      using False by (simp add: str_nat_big digits_value_append digit_of_digit_char)
  qed
qed

lemma py_int_py_str: "0 \<le> i \<Longrightarrow> py_int (py_str i) = Inr i"
proof -
  assume nonneg: "0 \<le> i"
  let ?s = "str_nat (nat i)"
  have ne: "?s \<noteq> []" by (rule str_nat_nonempty)
  then have "hd ?s \<in> set ?s" by simp
  then have "hd ?s \<noteq> CHR ''-'' \<and> hd ?s \<noteq> CHR ''+''"
    using str_nat_plain [of "nat i"] by metis
  moreover have "parse_digits ?s = Some (nat i)"
    using ne by (simp add: parse_digits_def digits_value_str_nat)
  ultimately show ?thesis
    using nonneg ne by (simp add: py_int_def py_str_def)
qed

lemma split_on_no_sep: "c \<notin> set s \<Longrightarrow> split_on c s = [s]"
  by (induction s) auto

lemma split_on_at_sep: "c \<notin> set a \<Longrightarrow> split_on c (a @ c # b) = a # split_on c b"
  by (induction a) auto

lemma py_str_plain: "0 \<le> i \<Longrightarrow> CHR ''_'' \<notin> set (py_str i)"
  using str_nat_plain [of "nat i"] by (simp add: py_str_def)

lemma split_label:
  "0 \<le> i \<Longrightarrow> i \<le> n - 1 \<Longrightarrow> split_on CHR ''_'' (label n i) = [py_str i, py_str (n - 1 - i)]"
  by (simp add: label_def split_on_at_sep split_on_no_sep py_str_plain)

lemma table_entry_first:
  "0 \<le> i \<Longrightarrow> i \<le> n - 1 \<Longrightarrow> n \<noteq> 1 \<Longrightarrow>
     table_entry 0 n (label n i) = Inr (real_of_int i / real_of_int (n - 1))"
  by (simp add: table_entry_def split_label py_index_def py_int_py_str py_truediv_def)

lemma table_entry_second:
  "0 \<le> i \<Longrightarrow> i \<le> n - 1 \<Longrightarrow> n \<noteq> 1 \<Longrightarrow>
     table_entry (Suc 0) n (label n i) = Inr (real_of_int (n - 1 - i) / real_of_int (n - 1))"
  by (simp add: table_entry_def split_label py_index_def py_int_py_str py_truediv_def)

lemma label_inj: 
  assumes "0 \<le> i" "i \<le> n - 1" "0 \<le> j" "j \<le> n - 1" "label n i = label n j"
  shows "i = j"
proof -
  have "py_int (hd (split_on CHR ''_'' (label n i))) = py_int (hd (split_on CHR ''_'' (label n j)))"
    using assms(5) by simp
  then show ?thesis
    using assms(1-4) by (simp add: split_label py_int_py_str)
qed

lemma distinct_labels: "distinct (map (label n) (py_range n))"
proof -
  have "inj_on (label n) {0 .. n - 1}"
  proof (rule inj_onI)
    fix x y
    assume "x \<in> {0 .. n - 1}" "y \<in> {0 .. n - 1}" "label n x = label n y"
    then show "x = y"
      using label_inj [of x n y] by simp
  qed
  then show ?thesis
    by (simp add: py_range_def distinct_map)
qed

subsection \<open>The tables\<close>

lemma update_fresh: "k \<notin> fst ` set d \<Longrightarrow> AList.update k v d = d @ [(k, v)]"
  by (induction d) auto

lemma dict_comp_distinct:
  "distinct ls \<Longrightarrow> set ls \<inter> fst ` set d = {} \<Longrightarrow> (\<forall>l\<in>set ls. f l = Inr (v l)) \<Longrightarrow>
     dict_comp f ls d = Inr (d @ map (\<lambda>l. (l, v l)) ls)"
proof (induction ls arbitrary: d)
  case Nil
  then show ?case by simp
next
  case (Cons l ls)
  have fresh: "l \<notin> fst ` set d"
    using Cons.prems(2) by auto
  have "set ls \<inter> fst ` set (d @ [(l, v l)]) = {}"
    using Cons.prems(1,2) by auto
  with Cons.IH [of "d @ [(l, v l)]"] Cons.prems(1,3)
  have "dict_comp f ls (d @ [(l, v l)]) = Inr ((d @ [(l, v l)]) @ map (\<lambda>l. (l, v l)) ls)"
    by simp
  then show ?case
    using Cons.prems(3) fresh by (simp add: update_fresh)
qed

text \<open>The share of role \<open>k\<close> in outcome \<open>i\<close>: \<open>i\<close> for the first role, \<open>n - 1 - i\<close> for the second.\<close>

lemma table_entry_role:
  "k < 2 \<Longrightarrow> 0 \<le> i \<Longrightarrow> i \<le> n - 1 \<Longrightarrow> n \<noteq> 1 \<Longrightarrow>
     table_entry k n (label n i) =
       Inr (real_of_int (if k = 0 then i else n - 1 - i) / real_of_int (n - 1))"
proof -
  assume "k < 2" and rest: "0 \<le> i" "i \<le> n - 1" "n \<noteq> 1"
  then have "k = 0 \<or> k = Suc 0" by auto
  then show ?thesis
    using rest table_entry_first [of i n] table_entry_second [of i n] by auto
qed

lemma dict_comp_labels:
  assumes "k < 2" "n \<noteq> 1"
  shows "dict_comp (table_entry k n) (map (label n) (py_range n)) [] =
           Inr (map (\<lambda>i. (label n i, real_of_int (if k = 0 then i else n - 1 - i) / real_of_int (n - 1)))
                  (py_range n))"
proof -
  define v where "v l = (case table_entry k n l of Inr x \<Rightarrow> x | Inl e \<Rightarrow> 0)" for l
  have ok: "\<forall>l\<in>set (map (label n) (py_range n)). table_entry k n l = Inr (v l)"
    using assms by (auto simp: py_range_def v_def table_entry_role)
  have "dict_comp (table_entry k n) (map (label n) (py_range n)) [] =
          Inr ([] @ map (\<lambda>l. (l, v l)) (map (label n) (py_range n)))"
    by (rule dict_comp_distinct) (use ok distinct_labels in simp_all)
  moreover have "map (\<lambda>l. (l, v l)) (map (label n) (py_range n)) =
      map (\<lambda>i. (label n i, real_of_int (if k = 0 then i else n - 1 - i) / real_of_int (n - 1))) (py_range n)"
    using assms by (auto simp: py_range_def v_def table_entry_role)
  ultimately show ?thesis by simp
qed

lemma table_entry_one:
  "k < 2 \<Longrightarrow> table_entry k 1 (label 1 0) = Inl ZeroDivisionError"
proof -
  assume "k < 2"
  then have "k = 0 \<or> k = Suc 0" by auto
  then show ?thesis
    by (auto simp: table_entry_def split_label py_index_def py_int_py_str py_truediv_def)
qed

lemma dict_comp_one:
  "k < 2 \<Longrightarrow> dict_comp (table_entry k 1) (map (label 1) (py_range 1)) [] = Inl ZeroDivisionError"
  by (simp add: py_range_def table_entry_one)

subsection \<open>The shape of what the loops return\<close>

lemma role_list_length: "length (role_list rr) = min 2 (length rr)"
  by (simp add: role_list_def enumerate_eq_zip)

lemma role_list_nth:
  "j < length (role_list rr) \<Longrightarrow> role_list rr ! j = (j, [''First'', ''Second''] ! j, rr ! j)"
  by (simp add: role_list_def nth_enumerate_eq)


lemma make_ufuns_shape:
  "make_ufuns G n issues i roles g = Inr (us, g') \<Longrightarrow>
     list_all2 (\<lambda>u (k, uname, r). \<exists>g0 g1. make_ufun G n issues i k uname r g0 = Inr (u, g1)) us roles"
proof (induction roles arbitrary: g us)
  case Nil
  then show ?case by simp
next
  case (Cons role roles)
  obtain k uname r where role: "role = (k, uname, r)"
    by (cases role) auto
  from Cons.prems role obtain u g1 us' where
    u: "make_ufun G n issues i k uname r g = Inr (u, g1)" and
    rest: "make_ufuns G n issues i roles g1 = Inr (us', g')" and
    us: "us = u # us'"
    by (auto split: sum.splits prod.splits)
  from Cons.IH [OF rest] u us role show ?case
    by auto
qed

lemma make_ufun_sets_shape:
  "make_ufun_sets G n issues roles is g = Inr (uss, g') \<Longrightarrow>
     list_all2 (\<lambda>us i. \<exists>g0 g1. make_ufuns G n issues i roles g0 = Inr (us, g1)) uss is"
proof (induction "is" arbitrary: g uss)
  case Nil
  then show ?case by simp
next
  case (Cons i "is")
  from Cons.prems obtain us g1 uss' where
    us: "make_ufuns G n issues i roles g = Inr (us, g1)" and
    rest: "make_ufun_sets G n issues roles is g1 = Inr (uss', g')" and
    uss: "uss = us # uss'"
    by (auto split: sum.splits prod.splits)
  from Cons.IH [OF rest] us uss show ?case
    by auto
qed

lemma make_scenario_list_shape:
  "make_scenario_list uss = Inr scs \<Longrightarrow>
     list_all2 (\<lambda>sc us. us \<noteq> [] \<and> sc = \<lparr> sc_outcome_space = uf_outcome_space (us ! 0), sc_ufuns = us \<rparr>)
       scs uss"
proof (induction uss arbitrary: scs)
  case Nil
  then show ?case by simp
next
  case (Cons us uss)
  from Cons.prems obtain scs' where
    ne: "us \<noteq> []" and
    rest: "make_scenario_list uss = Inr scs'" and
    scs: "scs = \<lparr> sc_outcome_space = uf_outcome_space (us ! 0), sc_ufuns = us \<rparr> # scs'"
    by (auto simp: py_index_def split: sum.splits if_splits)
  from Cons.IH [OF rest] ne scs show ?case
    by simp
qed

subsection \<open>One utility function, and when the loops succeed\<close>

lemma make_ufun_unfold:
  "make_ufun G n [iss] i k uname r g =
     (case dict_comp (table_entry k n) (issue_values iss) [] of
        Inl e \<Rightarrow> Inl e
      | Inr t \<Rightarrow>
          Inr (\<lparr> uf_values = [t],
                 uf_name = uname @ py_str i,
                 uf_reserved_value = fst r + eps + fst (gen_random G g) * (snd r - fst r - eps),
                 uf_outcome_space = make_os [iss] (''DivideTyePie'' @ py_str i) \<rparr>,
               snd (gen_random G g)))"
  by (simp add: make_ufun_def py_index_def split: prod.splits sum.splits)

lemma issue_values_make_issue: "issue_values (make_issue vs nm) = vs"
  by (simp add: make_issue_def)

lemma make_ufun_pie:
  assumes "make_ufun G n (pie_issues n) i k uname r g0 = Inr (u, g1)" and "k < 2"
  shows "n \<noteq> 1 \<and>
         u = \<lparr> uf_values = [map (\<lambda>j. (label n j, real_of_int (share k n j) / real_of_int (n - 1))) (py_range n)],
               uf_name = uname @ py_str i,
               uf_reserved_value = fst r + eps + fst (gen_random G g0) * (snd r - fst r - eps),
               uf_outcome_space = make_os (pie_issues n) (''DivideTyePie'' @ py_str i) \<rparr>"
proof (cases "n = 1")
  case True
  with assms show ?thesis
    by (simp add: make_ufun_unfold issue_values_make_issue dict_comp_one)
next
  case False
  with assms show ?thesis
    by (simp add: make_ufun_unfold issue_values_make_issue dict_comp_labels)
qed








lemma make_scenarios_shape:
  assumes "make_scenarios G ns n_outcomes rr g = Inr (scs, g')"
  shows "\<exists>n g1. onein G n_outcomes g = Inr (n, g1) \<and>
           list_all2 (\<lambda>sc i.
               sc_ufuns sc \<noteq> [] \<and>
               sc_outcome_space sc = uf_outcome_space (sc_ufuns sc ! 0) \<and>
               list_all2 (\<lambda>u (k, uname, r). \<exists>g0 g1. make_ufun G n (pie_issues n) i k uname r g0 = Inr (u, g1))
                 (sc_ufuns sc) (role_list rr))
             scs (py_range ns)"
proof -
  from assms obtain n g1 uss where
    n: "onein G n_outcomes g = Inr (n, g1)" and
    uss: "make_ufun_sets G n (pie_issues n) (role_list rr) (py_range ns) g1 = Inr (uss, g')" and
    scs: "make_scenario_list uss = Inr scs"
    by (auto simp: make_scenarios_def split: sum.splits prod.splits)
  have len: "length scs = length uss" "length uss = length (py_range ns)"
    using make_scenario_list_shape [OF scs] make_ufun_sets_shape [OF uss]
    by (auto dest: list_all2_lengthD)
  have "list_all2 (\<lambda>sc i.
               sc_ufuns sc \<noteq> [] \<and>
               sc_outcome_space sc = uf_outcome_space (sc_ufuns sc ! 0) \<and>
               list_all2 (\<lambda>u (k, uname, r). \<exists>g0 g1. make_ufun G n (pie_issues n) i k uname r g0 = Inr (u, g1))
                 (sc_ufuns sc) (role_list rr))
             scs (py_range ns)"
  proof (rule list_all2_all_nthI)
    show "length scs = length (py_range ns)"
      using len by simp
  next
    fix p
    assume p: "p < length scs"
    from make_scenario_list_shape [OF scs] p have
      sc: "uss ! p \<noteq> []"
          "scs ! p = \<lparr> sc_outcome_space = uf_outcome_space (uss ! p ! 0), sc_ufuns = uss ! p \<rparr>"
      by (auto simp: list_all2_conv_all_nth)
    from make_ufun_sets_shape [OF uss] p len obtain g0 g2 where
      "make_ufuns G n (pie_issues n) (py_range ns ! p) (role_list rr) g0 = Inr (uss ! p, g2)"
      by (auto simp: list_all2_conv_all_nth)
    from make_ufuns_shape [OF this] sc
    show "sc_ufuns (scs ! p) \<noteq> [] \<and>
          sc_outcome_space (scs ! p) = uf_outcome_space (sc_ufuns (scs ! p) ! 0) \<and>
          list_all2 (\<lambda>u (k, uname, r). \<exists>g0 g1.
                make_ufun G n (pie_issues n) (py_range ns ! p) k uname r g0 = Inr (u, g1))
            (sc_ufuns (scs ! p)) (role_list rr)"
      by simp
  qed
  with n show ?thesis by blast
qed

text \<open>One scenario of a returned batch, and one utility function of it.\<close>

lemma make_scenarios_scenario:
  assumes "make_scenarios G ns n_outcomes rr g = Inr (scs, g')" and "sc \<in> set scs"
  shows "\<exists>n g1 i.
           onein G n_outcomes g = Inr (n, g1) \<and> n \<noteq> 1 \<and> 0 \<le> i \<and> i < ns \<and>
           sc_ufuns sc \<noteq> [] \<and>
           length (sc_ufuns sc) = min 2 (length rr) \<and>
           sc_outcome_space sc = make_os (pie_issues n) (''DivideTyePie'' @ py_str i) \<and>
           (\<forall>k<length (sc_ufuns sc). \<exists>g0.
              sc_ufuns sc ! k =
                \<lparr> uf_values = [map (\<lambda>j. (label n j, real_of_int (share k n j) / real_of_int (n - 1))) (py_range n)],
                  uf_name = [''First'', ''Second''] ! k @ py_str i,
                  uf_reserved_value = fst (rr ! k) + eps + fst (gen_random G g0) * (snd (rr ! k) - fst (rr ! k) - eps),
                  uf_outcome_space = make_os (pie_issues n) (''DivideTyePie'' @ py_str i) \<rparr>)"
proof -
  from make_scenarios_shape [OF assms(1)] obtain n g1 where
    n: "onein G n_outcomes g = Inr (n, g1)" and
    all: "list_all2 (\<lambda>sc i.
               sc_ufuns sc \<noteq> [] \<and>
               sc_outcome_space sc = uf_outcome_space (sc_ufuns sc ! 0) \<and>
               list_all2 (\<lambda>u (k, uname, r). \<exists>g0 g1. make_ufun G n (pie_issues n) i k uname r g0 = Inr (u, g1))
                 (sc_ufuns sc) (role_list rr))
             scs (py_range ns)"
    by blast
  from assms(2) obtain p where p: "p < length scs" "sc = scs ! p"
    by (auto simp: in_set_conv_nth)
  define i where "i = py_range ns ! p"
  from all p have plen: "p < length (py_range ns)"
    by (auto dest: list_all2_lengthD)
  then have i: "0 \<le> i" "i < ns"
    using nth_mem [OF plen] by (auto simp: i_def py_range_def simp del: nth_mem)
  from all p have
    ne: "sc_ufuns sc \<noteq> []" and
    os: "sc_outcome_space sc = uf_outcome_space (sc_ufuns sc ! 0)" and
    ufs: "list_all2 (\<lambda>u (k, uname, r). \<exists>g0 g1. make_ufun G n (pie_issues n) i k uname r g0 = Inr (u, g1))
            (sc_ufuns sc) (role_list rr)"
    by (auto simp: list_all2_conv_all_nth i_def)
  from ufs have len: "length (sc_ufuns sc) = length (role_list rr)"
    by (rule list_all2_lengthD)
  have each: "\<exists>g0 g1. make_ufun G n (pie_issues n) i j ([''First'', ''Second''] ! j) (rr ! j) g0
                  = Inr (sc_ufuns sc ! j, g1)" if "j < length (sc_ufuns sc)" for j
  proof -
    from that len have j: "j < length (role_list rr)" by simp
    from list_all2_nthD [OF ufs that] role_list_nth [OF j] show ?thesis
      by simp
  qed
  have two: "j < 2" if "j < length (sc_ufuns sc)" for j
    using that len by (simp add: role_list_length)
  have built: "n \<noteq> 1 \<and> (\<exists>g0.
      sc_ufuns sc ! j =
        \<lparr> uf_values = [map (\<lambda>l. (label n l, real_of_int (share j n l) / real_of_int (n - 1))) (py_range n)],
          uf_name = [''First'', ''Second''] ! j @ py_str i,
          uf_reserved_value = fst (rr ! j) + eps + fst (gen_random G g0) * (snd (rr ! j) - fst (rr ! j) - eps),
          uf_outcome_space = make_os (pie_issues n) (''DivideTyePie'' @ py_str i) \<rparr>)"
    if "j < length (sc_ufuns sc)" for j
  proof -
    from each [OF that] obtain g0 g2 where
      "make_ufun G n (pie_issues n) i j ([''First'', ''Second''] ! j) (rr ! j) g0 = Inr (sc_ufuns sc ! j, g2)"
      by blast
    from make_ufun_pie [OF this two [OF that]] show ?thesis
      by blast
  qed
  from ne have zero: "0 < length (sc_ufuns sc)" by simp
  from built [OF zero] have n1: "n \<noteq> 1" by simp
  from built [OF zero] obtain g0 where
    "sc_ufuns sc ! 0 =
        \<lparr> uf_values = [map (\<lambda>l. (label n l, real_of_int (share 0 n l) / real_of_int (n - 1))) (py_range n)],
          uf_name = [''First'', ''Second''] ! 0 @ py_str i,
          uf_reserved_value = fst (rr ! 0) + eps + fst (gen_random G g0) * (snd (rr ! 0) - fst (rr ! 0) - eps),
          uf_outcome_space = make_os (pie_issues n) (''DivideTyePie'' @ py_str i) \<rparr>"
    by blast
  then have "uf_outcome_space (sc_ufuns sc ! 0) = make_os (pie_issues n) (''DivideTyePie'' @ py_str i)"
    by simp
  with os have os': "sc_outcome_space sc = make_os (pie_issues n) (''DivideTyePie'' @ py_str i)"
    by simp
  from built have "\<forall>k<length (sc_ufuns sc). \<exists>g0.
      sc_ufuns sc ! k =
        \<lparr> uf_values = [map (\<lambda>l. (label n l, real_of_int (share k n l) / real_of_int (n - 1))) (py_range n)],
          uf_name = [''First'', ''Second''] ! k @ py_str i,
          uf_reserved_value = fst (rr ! k) + eps + fst (gen_random G g0) * (snd (rr ! k) - fst (rr ! k) - eps),
          uf_outcome_space = make_os (pie_issues n) (''DivideTyePie'' @ py_str i) \<rparr>"
    by blast
  with n n1 i ne len os' show ?thesis
    unfolding role_list_length by blast
qed

subsection \<open>Outcomes and table look-up\<close>

lemma length_py_range: "length (py_range n) = nat n"
  by (simp add: py_range_def)

lemma nth_py_range: "0 \<le> i \<Longrightarrow> i < n \<Longrightarrow> py_range n ! nat i = i"
  by (simp add: py_range_def)

lemma outcomes_pie:
  "outcomes (make_os (pie_issues n) nm) = map (\<lambda>i. [label n i]) (py_range n)"
  by (simp add: outcomes_def make_os_def make_issue_def comp_def)

lemma map_of_inj_key:
  "inj_on f (set xs) \<Longrightarrow> x \<in> set xs \<Longrightarrow> map_of (map (\<lambda>j. (f j, h j)) xs) (f x) = Some (h x)"
proof (induction xs)
  case Nil
  then show ?case by simp
next
  case (Cons a xs)
  show ?case
  proof (cases "f x = f a")
    case True
    have "inj_on f (set (a # xs))" "x \<in> set (a # xs)" "a \<in> set (a # xs)"
      using Cons.prems by simp_all
    with True have "x = a"
      by (metis inj_onD)
    then show ?thesis by simp
  next
    case False
    with Cons.prems have "x \<in> set xs" "inj_on f (set xs)"
      by auto
    with Cons.IH False show ?thesis by simp
  qed
qed

lemma label_inj_on: "inj_on (label n) (set (py_range n))"
  using distinct_labels [of n] by (simp add: distinct_map)

lemma table_lookup:
  "0 \<le> i \<Longrightarrow> i < n \<Longrightarrow>
     map_of (map (\<lambda>j. (label n j, h j)) (py_range n)) (label n i) = Some (h i)"
  by (rule map_of_inj_key [OF label_inj_on]) (simp add: py_range_def)

subsection \<open>A concrete run\<close>

lemma pie3_run:
  "make_scenarios counter_generator 1 (Count 3) default_reserved_ranges 0 = Inr ([pie3], 2)"
  by code_simp

lemma pie3_onein: "onein counter_generator (Count 3) 0 = Inr (3, 0)"
  by (simp add: onein_def)

lemma pie3_mem: "pie3 \<in> set [pie3]"
  by simp


lemma default_ranges_two: "2 \<le> length default_reserved_ranges"
  by (simp add: default_reserved_ranges_def)

subsection \<open>Values of the utility functions\<close>

lemma scenario_value:
  assumes "make_scenarios G ns n_outcomes rr g = Inr (scs, g')" and "sc \<in> set scs"
    and "onein G n_outcomes g = Inr (n, g1)"
    and "k < length (sc_ufuns sc)" and "0 \<le> i" and "i < n"
  shows "outcomes (sc_outcome_space sc) ! nat i = [label n i] \<and>
         ufun_value (sc_ufuns sc ! k) [label n i] =
           Some (real_of_int (share k n i) / real_of_int (n - 1)) \<and>
         n \<noteq> 1"
proof -
  from make_scenarios_scenario [OF assms(1,2)] assms(3) obtain j where
    n1: "n \<noteq> 1" and
    os: "sc_outcome_space sc = make_os (pie_issues n) (''DivideTyePie'' @ py_str j)" and
    ufs: "\<forall>k<length (sc_ufuns sc). \<exists>g0.
              sc_ufuns sc ! k =
                \<lparr> uf_values = [map (\<lambda>l. (label n l, real_of_int (share k n l) / real_of_int (n - 1))) (py_range n)],
                  uf_name = [''First'', ''Second''] ! k @ py_str j,
                  uf_reserved_value = fst (rr ! k) + eps + fst (gen_random G g0) * (snd (rr ! k) - fst (rr ! k) - eps),
                  uf_outcome_space = make_os (pie_issues n) (''DivideTyePie'' @ py_str j) \<rparr>"
    by auto
  from ufs assms(4) obtain g0 where
    u: "sc_ufuns sc ! k =
          \<lparr> uf_values = [map (\<lambda>l. (label n l, real_of_int (share k n l) / real_of_int (n - 1))) (py_range n)],
            uf_name = [''First'', ''Second''] ! k @ py_str j,
            uf_reserved_value = fst (rr ! k) + eps + fst (gen_random G g0) * (snd (rr ! k) - fst (rr ! k) - eps),
            uf_outcome_space = make_os (pie_issues n) (''DivideTyePie'' @ py_str j) \<rparr>"
    by blast
  have "nat i < length (py_range n)"
    using assms(5,6) by (simp add: length_py_range)
  then have "outcomes (sc_outcome_space sc) ! nat i = [label n i]"
    using assms(5,6) by (simp add: os outcomes_pie nth_py_range)
  moreover have "ufun_value (sc_ufuns sc ! k) [label n i] =
           Some (real_of_int (share k n i) / real_of_int (n - 1))"
    unfolding u ufun_value_def
    by (simp add: table_lookup [OF assms(5,6)])
  ultimately show ?thesis
    using n1 by simp
qed

lemma labels_three: "map (label 3) (py_range 3) = [''0_2'', ''1_1'', ''2_0'']"
  by code_simp

lemma first_table_three:
  "map (\<lambda>j. (label 3 j, real_of_int j / real_of_int (3 - 1))) (py_range 3) =
     [(''0_2'', 0), (''1_1'', 1 / 2), (''2_0'', 1)]"
  by code_simp

lemma second_table_three:
  "map (\<lambda>j. (label 3 j, real_of_int (3 - 1 - j) / real_of_int (3 - 1))) (py_range 3) =
     [(''0_2'', 1), (''1_1'', 1 / 2), (''2_0'', 0)]"
  by code_simp

lemma scenario_tables:
  assumes "make_scenarios G ns n_outcomes rr g = Inr (scs, g')" and "sc \<in> set scs"
    and "onein G n_outcomes g = Inr (n, g1)"
    and "k < length (sc_ufuns sc)"
  shows "uf_values (sc_ufuns sc ! k) =
           [map (\<lambda>j. (label n j, real_of_int (share k n j) / real_of_int (n - 1))) (py_range n)]"
    and "outcomes (sc_outcome_space sc) = map (\<lambda>i. [label n i]) (py_range n)"
    and "uf_outcome_space (sc_ufuns sc ! k) = sc_outcome_space sc"
proof -
  from make_scenarios_scenario [OF assms(1,2)] assms(3) obtain j where
    os: "sc_outcome_space sc = make_os (pie_issues n) (''DivideTyePie'' @ py_str j)" and
    ufs: "\<forall>k<length (sc_ufuns sc). \<exists>g0.
              sc_ufuns sc ! k =
                \<lparr> uf_values = [map (\<lambda>l. (label n l, real_of_int (share k n l) / real_of_int (n - 1))) (py_range n)],
                  uf_name = [''First'', ''Second''] ! k @ py_str j,
                  uf_reserved_value = fst (rr ! k) + eps + fst (gen_random G g0) * (snd (rr ! k) - fst (rr ! k) - eps),
                  uf_outcome_space = make_os (pie_issues n) (''DivideTyePie'' @ py_str j) \<rparr>"
    by auto
  from ufs assms(4) obtain g0 where
    u: "sc_ufuns sc ! k =
          \<lparr> uf_values = [map (\<lambda>l. (label n l, real_of_int (share k n l) / real_of_int (n - 1))) (py_range n)],
            uf_name = [''First'', ''Second''] ! k @ py_str j,
            uf_reserved_value = fst (rr ! k) + eps + fst (gen_random G g0) * (snd (rr ! k) - fst (rr ! k) - eps),
            uf_outcome_space = make_os (pie_issues n) (''DivideTyePie'' @ py_str j) \<rparr>"
    by blast
  show "uf_values (sc_ufuns sc ! k) =
           [map (\<lambda>j. (label n j, real_of_int (share k n j) / real_of_int (n - 1))) (py_range n)]"
    unfolding u by simp
  show "outcomes (sc_outcome_space sc) = map (\<lambda>i. [label n i]) (py_range n)"
    unfolding os by (rule outcomes_pie)
  show "uf_outcome_space (sc_ufuns sc ! k) = sc_outcome_space sc"
    unfolding u os by simp
qed

lemma scenario_two_ufuns:
  assumes "make_scenarios G ns n_outcomes rr g = Inr (scs, g')" and "sc \<in> set scs"
    and "2 \<le> length rr"
  shows "length (sc_ufuns sc) = 2"
  using make_scenarios_scenario [OF assms(1,2)] assms(3) by auto

subsection \<open>Reserved values\<close>






subsection \<open>Which errors can be raised\<close>









subsection \<open>Failing runs\<close>











subsection \<open>More concrete runs\<close>





subsection \<open>The outcome count\<close>





subsection \<open>The batch depends on the generator through the values drawn only\<close>









subsection \<open>Size of the batch\<close>




section \<open>The claims\<close>

text \<open>
  Claim C1. In every scenario that \<^verbatim>\<open>make_scenarios\<close> returns, for every outcome
  \<open>i\<close> in \<open>[0, n)\<close>, where \<open>n\<close> is the outcome count that \<^verbatim>\<open>onein\<close> resolved, the
  value the first role's utility function gives the outcome plus the value the second
  role's gives it is 1. Floats are exact reals here, so the sum is exactly 1. Two roles
  need two reserved ranges. The bound \<open>n \<ge> 2\<close> of the claim is not a hypothesis: a call
  that resolves \<open>n = 1\<close> returns no scenario, and for \<open>n \<le> 0\<close> there is no outcome.
\<close>

theorem zero_sum_pie:
  assumes "make_scenarios G ns n_outcomes rr g = Inr (scs, g')" and "sc \<in> set scs"
    and "2 \<le> length rr"
    and "onein G n_outcomes g = Inr (n, g1)" and "0 \<le> i" and "i < n"
  shows "\<exists>v0 v1.
           ufun_value (sc_ufuns sc ! 0) (outcomes (sc_outcome_space sc) ! nat i) = Some v0 \<and>
           ufun_value (sc_ufuns sc ! 1) (outcomes (sc_outcome_space sc) ! nat i) = Some v1 \<and>
           v0 + v1 = 1"
proof -
  from make_scenarios_scenario [OF assms(1,2)] assms(3)
  have len: "length (sc_ufuns sc) = 2"
    by auto
  then have k0: "0 < length (sc_ufuns sc)" and k1: "1 < length (sc_ufuns sc)"
    by simp_all
  from scenario_value [OF assms(1,2,4) k0 assms(5,6)] scenario_value [OF assms(1,2,4) k1 assms(5,6)]
  have o: "outcomes (sc_outcome_space sc) ! nat i = [label n i]"
    and v0: "ufun_value (sc_ufuns sc ! 0) [label n i] = Some (real_of_int i / real_of_int (n - 1))"
    and v1: "ufun_value (sc_ufuns sc ! 1) [label n i] = Some (real_of_int (n - 1 - i) / real_of_int (n - 1))"
    and n1: "n \<noteq> 1"
    by simp_all
  have "real_of_int i / real_of_int (n - 1) + real_of_int (n - 1 - i) / real_of_int (n - 1) = 1"
    using n1 by (simp add: add_divide_distrib [symmetric])
  with o v0 v1 show ?thesis
    by simp
qed

theorem zero_sum_pie_witness:
  "make_scenarios counter_generator 1 (Count 3) default_reserved_ranges 0 = Inr ([pie3], 2) \<and>
   pie3 \<in> set [pie3] \<and> 2 \<le> length default_reserved_ranges \<and>
   onein counter_generator (Count 3) 0 = Inr (3, 0) \<and> (0::int) \<le> 1 \<and> (1::int) < 3 \<and>
   (\<exists>v0 v1.
      ufun_value (sc_ufuns pie3 ! 0) (outcomes (sc_outcome_space pie3) ! nat 1) = Some v0 \<and>
      ufun_value (sc_ufuns pie3 ! 1) (outcomes (sc_outcome_space pie3) ! nat 1) = Some v1 \<and>
      v0 + v1 = 1)"
proof -
  have len: "2 \<le> length default_reserved_ranges"
    by (simp add: default_reserved_ranges_def)
  have "(0::int) \<le> 1" and "(1::int) < 3"
    by simp_all
  from zero_sum_pie [OF pie3_run pie3_mem len pie3_onein this] pie3_run len pie3_onein
  show ?thesis by simp
qed

text \<open>
  Claim C2. In every scenario that \<^verbatim>\<open>make_scenarios\<close> returns, with \<open>n\<close> the outcome
  count that \<^verbatim>\<open>onein\<close> resolved, outcome \<open>i\<close> is the label \<^verbatim>\<open>"i_(n-1-i)"\<close>, the first
  role's table gives it \<open>i / (n - 1)\<close> and the second role's \<open>(n - 1 - i) / (n - 1)\<close>.
  For \<open>n = 3\<close> the outcomes are \<^verbatim>\<open>0_2\<close>, \<^verbatim>\<open>1_1\<close>, \<^verbatim>\<open>2_0\<close>, the first role's table
  holds 0, 1/2, 1 and the second role's 1, 1/2, 0.
\<close>

theorem labels_and_tables:
  assumes "make_scenarios G ns n_outcomes rr g = Inr (scs, g')" and "sc \<in> set scs"
    and "2 \<le> length rr"
    and "onein G n_outcomes g = Inr (n, g1)"
  shows "(\<forall>i. 0 \<le> i \<and> i < n \<longrightarrow>
            outcomes (sc_outcome_space sc) ! nat i = [py_str i @ ''_'' @ py_str (n - 1 - i)] \<and>
            ufun_value (sc_ufuns sc ! 0) (outcomes (sc_outcome_space sc) ! nat i) =
              Some (real_of_int i / real_of_int (n - 1)) \<and>
            ufun_value (sc_ufuns sc ! 1) (outcomes (sc_outcome_space sc) ! nat i) =
              Some (real_of_int (n - 1 - i) / real_of_int (n - 1))) \<and>
         (n = 3 \<longrightarrow>
            outcomes (sc_outcome_space sc) = [[''0_2''], [''1_1''], [''2_0'']] \<and>
            uf_values (sc_ufuns sc ! 0) = [[(''0_2'', 0), (''1_1'', 1 / 2), (''2_0'', 1)]] \<and>
            uf_values (sc_ufuns sc ! 1) = [[(''0_2'', 1), (''1_1'', 1 / 2), (''2_0'', 0)]])"
proof -
  have len: "length (sc_ufuns sc) = 2"
    by (rule scenario_two_ufuns [OF assms(1,2,3)])
  then have k0: "0 < length (sc_ufuns sc)" and k1: "1 < length (sc_ufuns sc)"
    by simp_all
  have general: "outcomes (sc_outcome_space sc) ! nat i = [py_str i @ ''_'' @ py_str (n - 1 - i)] \<and>
            ufun_value (sc_ufuns sc ! 0) (outcomes (sc_outcome_space sc) ! nat i) =
              Some (real_of_int i / real_of_int (n - 1)) \<and>
            ufun_value (sc_ufuns sc ! 1) (outcomes (sc_outcome_space sc) ! nat i) =
              Some (real_of_int (n - 1 - i) / real_of_int (n - 1))"
    if "0 \<le> i" "i < n" for i
    using scenario_value [OF assms(1,2,4) k0 that] scenario_value [OF assms(1,2,4) k1 that]
    by (simp add: label_def)
  have three: "outcomes (sc_outcome_space sc) = [[''0_2''], [''1_1''], [''2_0'']] \<and>
            uf_values (sc_ufuns sc ! 0) = [[(''0_2'', 0), (''1_1'', 1 / 2), (''2_0'', 1)]] \<and>
            uf_values (sc_ufuns sc ! 1) = [[(''0_2'', 1), (''1_1'', 1 / 2), (''2_0'', 0)]]"
    if "n = 3"
  proof -
    have "outcomes (sc_outcome_space sc) = map (\<lambda>x. [x]) (map (label 3) (py_range 3))"
      using scenario_tables(2) [OF assms(1,2,4) k0] that by (simp add: comp_def)
    then have "outcomes (sc_outcome_space sc) = [[''0_2''], [''1_1''], [''2_0'']]"
      unfolding labels_three by simp
    moreover have "uf_values (sc_ufuns sc ! 0) = [[(''0_2'', 0), (''1_1'', 1 / 2), (''2_0'', 1)]]"
      using scenario_tables(1) [OF assms(1,2,4) k0] first_table_three that by simp
    moreover have "uf_values (sc_ufuns sc ! 1) = [[(''0_2'', 1), (''1_1'', 1 / 2), (''2_0'', 0)]]"
      using scenario_tables(1) [OF assms(1,2,4) k1] second_table_three that by simp
    ultimately show ?thesis by simp
  qed
  from general three show ?thesis by blast
qed

theorem labels_and_tables_witness:
  "make_scenarios counter_generator 1 (Count 3) default_reserved_ranges 0 = Inr ([pie3], 2) \<and>
   pie3 \<in> set [pie3] \<and> 2 \<le> length default_reserved_ranges \<and>
   onein counter_generator (Count 3) 0 = Inr (3, 0) \<and>
   outcomes (sc_outcome_space pie3) ! nat 2 = [py_str 2 @ ''_'' @ py_str (3 - 1 - 2)] \<and>
   ufun_value (sc_ufuns pie3 ! 0) (outcomes (sc_outcome_space pie3) ! nat 2) =
     Some (real_of_int 2 / real_of_int (3 - 1)) \<and>
   ufun_value (sc_ufuns pie3 ! 1) (outcomes (sc_outcome_space pie3) ! nat 2) =
     Some (real_of_int (3 - 1 - 2) / real_of_int (3 - 1)) \<and>
   outcomes (sc_outcome_space pie3) = [[''0_2''], [''1_1''], [''2_0'']] \<and>
   uf_values (sc_ufuns pie3 ! 0) = [[(''0_2'', 0), (''1_1'', 1 / 2), (''2_0'', 1)]] \<and>
   uf_values (sc_ufuns pie3 ! 1) = [[(''0_2'', 1), (''1_1'', 1 / 2), (''2_0'', 0)]]"
proof -
  note t = labels_and_tables [OF pie3_run pie3_mem default_ranges_two pie3_onein]
  have "(0::int) \<le> 2 \<and> (2::int) < 3"
    by simp
  with t have "
      outcomes (sc_outcome_space pie3) ! nat 2 = [py_str 2 @ ''_'' @ py_str (3 - 1 - 2)] \<and>
      ufun_value (sc_ufuns pie3 ! 0) (outcomes (sc_outcome_space pie3) ! nat 2) =
        Some (real_of_int 2 / real_of_int (3 - 1)) \<and>
      ufun_value (sc_ufuns pie3 ! 1) (outcomes (sc_outcome_space pie3) ! nat 2) =
        Some (real_of_int (3 - 1 - 2) / real_of_int (3 - 1))"
    by blast
  moreover from t have
     "outcomes (sc_outcome_space pie3) = [[''0_2''], [''1_1''], [''2_0'']] \<and>
      uf_values (sc_ufuns pie3 ! 0) = [[(''0_2'', 0), (''1_1'', 1 / 2), (''2_0'', 1)]] \<and>
      uf_values (sc_ufuns pie3 ! 1) = [[(''0_2'', 1), (''1_1'', 1 / 2), (''2_0'', 0)]]"
    by blast
  ultimately show ?thesis
    using pie3_run pie3_mem default_ranges_two pie3_onein by blast
qed

















text \<open>
  Claim C9. With \<^verbatim>\<open>nologs\<close> true \<^verbatim>\<open>anl2024_tournament\<close> passes no path. With
  \<^verbatim>\<open>nologs\<close> false it passes the base path joined with the name when a non-empty
  name is given, and joined with the name that \<^verbatim>\<open>unique_name("anl")\<close> returns when
  the name is \<^verbatim>\<open>None\<close> (or the empty string, which a condition takes for false); when
  no base path is given, the base path is \<^verbatim>\<open>~/negmas/anl2024/tournaments\<close>.
\<close>

theorem tournament_destination:
  "tournament_path join home fresh True base_path name = None \<and>
   tournament_path join home fresh False (Some bp) (Some (c # cs)) = Some (join bp (c # cs)) \<and>
   tournament_path join home fresh False (Some bp) None = Some (join bp fresh) \<and>
   tournament_path join home fresh False (Some bp) (Some []) = Some (join bp fresh) \<and>
   tournament_path join home fresh False None name =
     tournament_path join home fresh False
       (Some (join (join (join home ''negmas'') ''anl2024'') ''tournaments'')) name"
  by (simp add: tournament_path_def name_or_unique_def DEFAULT_TOURNAMENT_PATH_def)

end
